theory Spec2Isabelle
  imports Complex_Main "HOL-Library.Multiset"
begin

section \<open>Flappy Bird: the game-loop core of flappy.py\<close>

text \<open>
  The development follows flappy.py class by class. Python \<open>int\<close> values are \<open>int\<close>.
  The quantities that become Python floats once gravity has been added (the bird's \<open>y\<close>,
  \<open>vely\<close>, \<open>degree\<close> and \<open>rotation\<close>) are rationals, and the float constants
  \<open>GRAVITY = 0.3\<close> and \<open>ROTATION_SPEED = 0.05\<close> are the rationals \<open>3/10\<close> and \<open>1/20\<close>:
  arithmetic is exact, the rounding of binary floating point is not part of the model.
  Rendering, sound and the clock are left out; what an image contributes to the state is
  its pixel size, which \<open>Sprite.__init__\<close> stores as \<open>width\<close> and \<open>height\<close>.
\<close>

subsection \<open>Global constants\<close>

definition WIDTH :: int where "WIDTH = 576"
definition HEIGHT :: int where "HEIGHT = 1024"
definition GRAVITY :: rat where "GRAVITY = 3 / 10"
definition FLAP_POWER :: int where "FLAP_POWER = 6"
definition ROTATION_SPEED :: rat where "ROTATION_SPEED = 1 / 20"
definition PIPE_THICKNESS :: int where "PIPE_THICKNESS = 104"
definition PIPE_SPEED :: int where "PIPE_SPEED = 4"
definition FLOOR_SPEED :: int where "FLOOR_SPEED = 4"

text \<open>
  \<open>PIPE_GAP\<close> is a module-level variable, not a constant: \<open>Game.__init__\<close> assigns it
  from the command line. It starts at 250 and lives in the state (record \<open>globals\<close> below).
\<close>

definition PIPE_GAP_initial :: int where "PIPE_GAP_initial = 250"

subsection \<open>Exceptions\<close>

text \<open>
  \<open>ValueError\<close>: \<open>random.randint\<close> on an empty range and \<open>list.remove\<close> of an absent
  element. \<open>SystemExit\<close>: \<open>exit()\<close> in \<open>ExitCommand.execute\<close> and on the window's
  close button. \<open>RecursionError\<close>: \<open>main()\<close> calls itself after every round, and the
  interpreter's call stack is bounded.
\<close>

datatype exn = ValueError | SystemExit | RecursionError

subsection \<open>class Sprite\<close>

text \<open>
  A sprite has \<open>x\<close>, \<open>y\<close>, and the \<open>height\<close> and \<open>width\<close> of its (first) image after
  \<open>scale2x\<close>. The type of \<open>y\<close> is a parameter: a rational for the bird, an integer for
  the floor, and \<open>None\<close> (the unit value) for a pipe, whose constructor passes \<open>None\<close>.
  The image argument of the constructor is modelled by the pair (width, height) of the
  loaded and scaled surface.
\<close>

record 'a sprite =
  x :: int
  y :: 'a
  height :: int
  width :: int

type_synonym image = "int \<times> int"

definition Sprite_init :: "int \<Rightarrow> 'a \<Rightarrow> image \<Rightarrow> 'a sprite" where
  "Sprite_init xv yv img = \<lparr>x = xv, y = yv, height = snd img, width = fst img\<rparr>"

subsection \<open>class Pipe\<close>

text \<open>
  \<open>ident\<close> is the identity of the Python object: \<open>Pipe\<close> defines no \<open>__eq__\<close>, so
  \<open>list.remove\<close> compares pipes by identity. The source's field \<open>_shared_state\<close> is
  \<open>shared_state\<close> here.
\<close>

record pipe = "unit sprite" +
  gap_start :: int
  shared_state :: string
  ident :: nat

text \<open>
  \<open>random.randint(a, b)\<close> of the Python library returns some \<open>N\<close> with \<open>a \<le> N \<le> b\<close> and
  raises \<open>ValueError\<close> when the range is empty. The third argument is the next element of
  the entropy source, which selects the value drawn; every \<open>N\<close> of the range is drawn for
  some element.
\<close>

definition randint :: "int \<Rightarrow> int \<Rightarrow> nat \<Rightarrow> exn + int" where
  "randint a b r = (if a \<le> b then Inr (a + int (r mod nat (b - a + 1))) else Inl ValueError)"

text \<open>
  \<open>Pipe.__init__\<close>. \<open>gap\<close> is the value of the global \<open>PIPE_GAP\<close> at the time of the
  call, \<open>r\<close> the entropy consumed by \<open>randint\<close>, \<open>i\<close> the identity of the new object.
\<close>

definition Pipe_init :: "int \<Rightarrow> image \<Rightarrow> string \<Rightarrow> int \<Rightarrow> nat \<Rightarrow> nat \<Rightarrow> exn + pipe" where
  "Pipe_init xv img st gap r i =
     (case randint 50 (HEIGHT - gap - 224 - 50) r of
        Inl e \<Rightarrow> Inl e
      | Inr gs \<Rightarrow>
          Inr \<lparr>x = xv, y = (), height = snd img, width = fst img,
               gap_start = gs, shared_state = st, ident = i\<rparr>)"

definition Pipe_motion :: "pipe \<Rightarrow> pipe" where
  "Pipe_motion p = p\<lparr>x := x p - PIPE_SPEED\<rparr>"

definition Pipe_offscreen :: "pipe \<Rightarrow> bool" where
  "Pipe_offscreen p = (x p + PIPE_THICKNESS < 0)"

subsection \<open>class Floor\<close>

type_synonym floor = "int sprite"

definition Floor_init :: "int \<Rightarrow> int \<Rightarrow> image \<Rightarrow> floor" where
  "Floor_init xv yv img = Sprite_init xv yv img"

definition Floor_motion :: "floor \<Rightarrow> floor" where
  "Floor_motion f = f\<lparr>x := x f - FLOOR_SPEED\<rparr>"

definition Floor_offscreen :: "floor \<Rightarrow> bool" where
  "Floor_offscreen f = (x f < - WIDTH)"

subsection \<open>class Bird\<close>

record bird = "rat sprite" +
  vely :: rat
  started :: bool
  degree :: rat
  rotation :: rat

definition Bird_init :: "int \<Rightarrow> rat \<Rightarrow> image \<Rightarrow> bird" where
  "Bird_init xv yv img =
     \<lparr>x = xv, y = yv, height = snd img, width = fst img,
      vely = 0, started = False, degree = 0, rotation = 0\<rparr>"

text \<open>
  \<open>Bird.motion\<close>: the statements of the source in their order; the test on \<open>rotation\<close>
  reads the old rotation and the updated \<open>degree\<close>.
\<close>

definition Bird_motion :: "bird \<Rightarrow> bird" where
  "Bird_motion b =
     (let b1 = b\<lparr>vely := vely b + GRAVITY\<rparr>;
          b2 = b1\<lparr>y := y b1 + vely b1\<rparr>;
          b3 = b2\<lparr>degree := degree b2 + ROTATION_SPEED\<rparr>
      in if rotation b3 \<ge> - 90 then b3\<lparr>rotation := rotation b3 - degree b3\<rparr> else b3)"

definition Bird_flap :: "bird \<Rightarrow> bird" where
  "Bird_flap b = b\<lparr>vely := - of_int FLAP_POWER, rotation := 20, degree := 0\<rparr>"

text \<open>
  \<open>Bird.collision\<close>. The global \<open>PIPE_GAP\<close> read by the source is the argument \<open>gap\<close>.
  The chained comparison \<open>pipe.x < self.x + self.width < pipe.x + pipe.width\<close> is the
  conjunction of its two halves.
\<close>

definition Bird_collision :: "bird \<Rightarrow> floor \<Rightarrow> pipe \<Rightarrow> int \<Rightarrow> bool" where
  "Bird_collision b f p gap =
     ((y b < 0 \<or> y b > of_int (HEIGHT - height f - height b)) \<or>
      ((x p < x b + width b \<and> x b + width b < x p + width p) \<and>
       (y b < of_int (gap_start p) \<or> y b + of_int (height b) > of_int (gap_start p + gap))))"

subsection \<open>State outside the Game object, and the environment\<close>

text \<open>
  \<open>globals\<close> collects the mutable state that lives outside the \<open>Game\<close> instance: the
  module variable \<open>PIPE_GAP\<close>, the class attribute \<open>Game.highscore\<close>, the dictionary
  \<open>_flyweights\<close> of \<open>Game.pipefactory\<close>, and the number of \<open>Pipe\<close> objects created so
  far, which gives the next object its identity and \<open>randint\<close> its next element of
  entropy. The dictionary holds references: a key is mapped to the identity of a pipe,
  not to a copy of it. The source reads an entry only to return the pipe just stored.
\<close>

record globals =
  PIPE_GAP :: int
  highscore :: int
  flyweights :: "string \<rightharpoonup> nat"
  created :: nat

definition module_globals :: globals where
  "module_globals =
     \<lparr>PIPE_GAP = PIPE_GAP_initial, highscore = 0, flyweights = Map.empty, created = 0\<rparr>"

text \<open>
  What the program takes from outside: the sizes of the three images after \<open>scale2x\<close>
  (the image files are not among the sources), the entropy behind \<open>random\<close>, and the
  number of nested calls of \<open>main()\<close> that the interpreter admits (Python's recursion
  limit, 1000 unless changed, less the frames already on the stack).
\<close>

record env =
  bird_image :: image
  pipe_image :: image
  floor_image :: image
  entropy :: "nat \<Rightarrow> nat"
  recursion_limit :: nat

subsection \<open>class PipeFactory\<close>

definition get_flyweight ::
  "env \<Rightarrow> int \<Rightarrow> string \<Rightarrow> 'a globals_scheme \<Rightarrow> exn + (pipe \<times> 'a globals_scheme)" where
  "get_flyweight E xv st G =
     (case Pipe_init xv (pipe_image E) st (PIPE_GAP G) (entropy E (created G)) (created G) of
        Inl e \<Rightarrow> Inl e
      | Inr p \<Rightarrow> Inr (p, G\<lparr>flyweights := (flyweights G)(st \<mapsto> ident p), created := created G + 1\<rparr>))"

subsection \<open>class Game\<close>

text \<open>The field \<open>floor\<close> of the source is \<open>floor_obj\<close>: \<open>floor\<close> is a function of HOL.\<close>

record game = globals +
  score :: int
  game_over :: bool
  bird :: bird
  pipes :: "pipe list"
  floor_obj :: floor
  difficulty :: string

text \<open>
  \<open>Game.__init__\<close>, called once (through \<open>get_instance\<close>) on the globals of the freshly
  loaded module. The two pipes are created while \<open>PIPE_GAP\<close> still has the value found in
  the globals; the command line is read afterwards.
\<close>

definition Game_init :: "env \<Rightarrow> string list \<Rightarrow> globals \<Rightarrow> exn + game" where
  "Game_init E argv G =
     (case get_flyweight E (WIDTH + WIDTH div 2) ''pipe'' G of
        Inl e \<Rightarrow> Inl e
      | Inr (p1, G1) \<Rightarrow>
          (case get_flyweight E (WIDTH + WIDTH div 2 + 340) ''pipe'' G1 of
             Inl e \<Rightarrow> Inl e
           | Inr (p2, G2) \<Rightarrow>
               (let g = \<lparr>PIPE_GAP = PIPE_GAP G2, highscore = highscore G2,
                         flyweights = flyweights G2, created = created G2,
                         score = 0, game_over = False,
                         bird = Bird_init (WIDTH div 20) (of_int (HEIGHT div 2)) (bird_image E),
                         pipes = [p1, p2],
                         floor_obj = Floor_init 0 (HEIGHT - 224) (floor_image E),
                         difficulty = ''Easy''\<rparr>
                in Inr (if 2 \<le> length argv then
                          (if argv ! 1 = ''h'' \<or> argv ! 1 = ''hard''
                           then g\<lparr>PIPE_GAP := 150, difficulty := ''Hard''\<rparr>
                           else if argv ! 1 = ''m'' \<or> argv ! 1 = ''med''
                           then g\<lparr>PIPE_GAP := 200, difficulty := ''Medium''\<rparr>
                           else g)
                        else g))))"

text \<open>\<open>Observer.update\<close>: one point (the sound is left out).\<close>

definition Observer_update :: "game \<Rightarrow> game" where
  "Observer_update g = g\<lparr>score := score g + 1\<rparr>"

text \<open>
  The first loop of \<open>Game.update\<close>, \<open>for pipe in self.pipes\<close>, from index \<open>i\<close> on.
  \<open>rm\<close> is \<open>pipes_to_remove\<close>. The pipe is moved in place before the collision test, and
  \<open>break\<close> leaves the loop with the pipes behind it untouched.
\<close>

function pipe_loop :: "nat \<Rightarrow> pipe list \<Rightarrow> game \<Rightarrow> pipe list \<times> game" where
  "pipe_loop i rm g =
     (if i < length (pipes g) then
        (let p = Pipe_motion (pipes g ! i);
             g1 = g\<lparr>pipes := (pipes g)[i := p]\<rparr>
         in if Bird_collision (bird g1) (floor_obj g1) p (PIPE_GAP g1)
            then (rm, g1\<lparr>game_over := True\<rparr>)
            else
              (let rm1 = (if Pipe_offscreen p then rm @ [p] else rm);
                   g2 = (if x p + PIPE_THICKNESS div 2 = x (bird g1)
                         then Observer_update g1 else g1)
               in pipe_loop (i + 1) rm1 g2))
      else (rm, g))"
  by pat_completeness auto
termination
  by (relation "measure (\<lambda>(i, rm, g). length (pipes g) - i)")
     (auto simp: Observer_update_def)

declare pipe_loop.simps [simp del]

text \<open>
  The second loop, \<open>for pipe in pipes_to_remove\<close>. \<open>list.remove\<close> raises \<open>ValueError\<close>
  when the element is absent; the replacement is spawned at \<open>x = WIDTH\<close>.
\<close>

fun remove_loop :: "env \<Rightarrow> pipe list \<Rightarrow> game \<Rightarrow> exn + game" where
  "remove_loop E [] g = Inr g"
| "remove_loop E (p # rm) g =
     (if p \<in> set (pipes g) then
        (case get_flyweight E WIDTH ''pipe'' (g\<lparr>pipes := remove1 p (pipes g)\<rparr>) of
           Inl e \<Rightarrow> Inl e
         | Inr (q, g1) \<Rightarrow> remove_loop E rm (g1\<lparr>pipes := pipes g1 @ [q]\<rparr>))
      else Inl ValueError)"

text \<open>
  The statements of \<open>Game.update\<close> that follow the first loop: the second loop, then
  \<open>self.bird.motion()\<close> and \<open>self.floor.motion()\<close>.
\<close>

definition after_loop :: "env \<Rightarrow> pipe list \<times> game \<Rightarrow> exn + game" where
  "after_loop E rg =
     (case rg of
        (rm, g2) \<Rightarrow>
          (case remove_loop E rm g2 of
             Inl e \<Rightarrow> Inl e
           | Inr g3 \<Rightarrow>
               Inr (g3\<lparr>bird := Bird_motion (bird g3),
                        floor_obj := Floor_motion (floor_obj g3)\<rparr>)))"

text \<open>The floor's wrap-around at the head of \<open>Game.update\<close>.\<close>

definition wrap_floor :: "game \<Rightarrow> game" where
  "wrap_floor g =
     (if Floor_offscreen (floor_obj g) then g\<lparr>floor_obj := (floor_obj g)\<lparr>x := 0\<rparr>\<rparr> else g)"

definition update :: "env \<Rightarrow> game \<Rightarrow> exn + game" where
  "update E g =
     (if game_over g then Inr g
      else after_loop E (pipe_loop 0 [] (wrap_floor g)))"

text \<open>\<open>Game.endgame\<close> without its drawing.\<close>

definition endgame :: "game \<Rightarrow> game" where
  "endgame g =
     (let g1 = g\<lparr>game_over := True\<rparr>
      in if highscore g1 < score g1 then g1\<lparr>highscore := score g1\<rparr> else g1)"

subsection \<open>Commands and input\<close>

datatype key = K_SPACE | K_UP | K_ESCAPE | K_other nat

datatype event = QUIT | KEYDOWN key | Other_event

datatype command = FlapCommand | ExitCommand

text \<open>The dictionary \<open>self.controls\<close>, never changed after \<open>Game.__init__\<close>.\<close>

fun controls :: "key \<rightharpoonup> command" where
  "controls K_SPACE = Some FlapCommand"
| "controls K_UP = Some FlapCommand"
| "controls K_ESCAPE = Some ExitCommand"
| "controls (K_other n) = None"

fun execute :: "command \<Rightarrow> game \<Rightarrow> exn + game" where
  "execute FlapCommand g = Inr (g\<lparr>bird := Bird_flap ((bird g)\<lparr>started := True\<rparr>)\<rparr>)"
| "execute ExitCommand g = Inl SystemExit"

fun handle_input :: "event list \<Rightarrow> game \<Rightarrow> exn + game" where
  "handle_input [] g = Inr g"
| "handle_input (QUIT # evs) g = Inl SystemExit"
| "handle_input (KEYDOWN k # evs) g =
     (case controls k of
        None \<Rightarrow> handle_input evs g
      | Some c \<Rightarrow> (case execute c g of Inl e \<Rightarrow> Inl e | Inr g1 \<Rightarrow> handle_input evs g1))"
| "handle_input (Other_event # evs) g = handle_input evs g"

subsection \<open>classes GameMemento and GameOriginator\<close>

text \<open>The fields \<open>score\<close> and \<open>game_over\<close> of the memento carry the prefix \<open>m_\<close>.\<close>

record GameMemento =
  m_score :: int
  m_game_over :: bool
  bird_state :: "int \<times> rat"
  pipe_states :: "int list"
  floor_state :: int

definition create_memento :: "game \<Rightarrow> GameMemento" where
  "create_memento g =
     \<lparr>m_score = score g, m_game_over = game_over g,
      bird_state = (x (bird g), y (bird g)),
      pipe_states = map x (pipes g),
      floor_state = x (floor_obj g)\<rparr>"

text \<open>The list comprehension of \<open>restore_from_memento\<close>: one new pipe per recorded x.\<close>

fun make_pipes ::
  "env \<Rightarrow> int list \<Rightarrow> 'a globals_scheme \<Rightarrow> exn + (pipe list \<times> 'a globals_scheme)" where
  "make_pipes E [] G = Inr ([], G)"
| "make_pipes E (xv # xs) G =
     (case get_flyweight E xv ''pipe'' G of
        Inl e \<Rightarrow> Inl e
      | Inr (p, G1) \<Rightarrow>
          (case make_pipes E xs G1 of
             Inl e \<Rightarrow> Inl e
           | Inr (ps, G2) \<Rightarrow> Inr (p # ps, G2)))"

definition restore_from_memento :: "env \<Rightarrow> GameMemento \<Rightarrow> game \<Rightarrow> exn + game" where
  "restore_from_memento E m g =
     (let g1 = g\<lparr>score := m_score m, game_over := m_game_over m\<rparr>;
          g2 = g1\<lparr>bird := Bird_init (fst (bird_state m)) (snd (bird_state m)) (bird_image E)\<rparr>
      in case make_pipes E (pipe_states m) g2 of
           Inl e \<Rightarrow> Inl e
         | Inr (ps, g3) \<Rightarrow>
             Inr (g3\<lparr>pipes := ps,
                      floor_obj := Floor_init (floor_state m) (HEIGHT - 224) (floor_image E)\<rparr>))"

subsection \<open>The main loop\<close>

text \<open>
  One element of \<open>frames\<close> is the list of events that \<open>pygame.event.get()\<close> delivers in one
  iteration of \<open>while True\<close>; the function runs the iterations for which events are given
  and returns the state reached. After a round has ended the source calls \<open>main()\<close>
  again, from inside the running call: the new call takes a new memento of the restored
  game and enters the loop. \<open>d\<close> counts the calls of \<open>main()\<close> that have not returned,
  the first one apart.
\<close>

definition advance :: "env \<Rightarrow> game \<Rightarrow> exn + game" where
  "advance E g = (if started (bird g) then update E g else Inr g)"

fun main_loop ::
  "env \<Rightarrow> event list list \<Rightarrow> GameMemento \<Rightarrow> nat \<Rightarrow> game \<Rightarrow> exn + game" where
  "main_loop E [] start_state d g = Inr g"
| "main_loop E (evs # frames) start_state d g =
     (case handle_input evs g of
        Inl e \<Rightarrow> Inl e
      | Inr g1 \<Rightarrow>
          (case advance E g1 of
             Inl e \<Rightarrow> Inl e
           | Inr g2 \<Rightarrow>
               if game_over g2 then
                 (case restore_from_memento E start_state (endgame g2) of
                    Inl e \<Rightarrow> Inl e
                  | Inr g3 \<Rightarrow>
                      if Suc d < recursion_limit E
                      then main_loop E frames (create_memento g3) (Suc d) g3
                      else Inl RecursionError)
               else main_loop E frames start_state d g2))"

definition main :: "env \<Rightarrow> event list list \<Rightarrow> game \<Rightarrow> exn + game" where
  "main E frames g = main_loop E frames (create_memento g) 0 g"

section \<open>Notions used in the statements\<close>

subsection \<open>Sequences of bird updates\<close>

text \<open>
  A per-tick motion update or a flap, and a run of them in order, first action first.
\<close>

datatype bird_action = Motion | Flap

fun bird_act :: "bird_action \<Rightarrow> bird \<Rightarrow> bird" where
  "bird_act Motion b = Bird_motion b"
| "bird_act Flap b = Bird_flap b"

fun bird_run :: "bird_action list \<Rightarrow> bird \<Rightarrow> bird" where
  "bird_run [] b = b"
| "bird_run (a # acts) b = bird_run acts (bird_act a b)"



subsection \<open>The collision rule in the words of the specification\<close>






subsection \<open>One iteration of the loop over the pipes\<close>

text \<open>
  The pipe at index \<open>i\<close> after its \<open>motion()\<close>, the collision test of the iteration, and
  the game after an iteration that does not collide.
\<close>

definition moved :: "nat \<Rightarrow> game \<Rightarrow> pipe" where
  "moved i g = Pipe_motion (pipes g ! i)"

definition hits :: "nat \<Rightarrow> game \<Rightarrow> bool" where
  "hits i g = Bird_collision (bird g) (floor_obj g) (moved i g) (PIPE_GAP g)"

definition body :: "nat \<Rightarrow> game \<Rightarrow> game" where
  "body i g =
     (if x (moved i g) + PIPE_THICKNESS div 2 = x (bird g)
      then Observer_update (g\<lparr>pipes := (pipes g)[i := moved i g]\<rparr>)
      else g\<lparr>pipes := (pipes g)[i := moved i g]\<rparr>)"

subsection \<open>Pipes, gaps and scoring\<close>

text \<open>The three values \<open>PIPE_GAP\<close> can have after \<open>Game.__init__\<close>.\<close>

definition valid_gap :: "int \<Rightarrow> bool" where
  "valid_gap gap = (gap = 250 \<or> gap = 200 \<or> gap = 150)"

text \<open>\<open>gap_start\<close> is at least 50 and \<open>gap_start + gap\<close> at most \<open>HEIGHT - 274\<close>.\<close>

definition gap_ok :: "int \<Rightarrow> pipe \<Rightarrow> bool" where
  "gap_ok gap p = (50 \<le> gap_start p \<and> gap_start p + gap \<le> HEIGHT - 274)"

text \<open>A replacement pipe: at \<open>x = WIDTH\<close>, with a gap in range.\<close>

definition spawned :: "int \<Rightarrow> pipe \<Rightarrow> bool" where
  "spawned gap q = (x q = WIDTH \<and> gap_ok gap q)"




subsection \<open>Runs\<close>

text \<open>What every state of a run satisfies, and every memento taken in it.\<close>

definition round_inv :: "game \<Rightarrow> bool" where
  "round_inv g =
     (length (pipes g) = 2 \<and> valid_gap (PIPE_GAP g) \<and>
      list_all (gap_ok (PIPE_GAP g)) (pipes g) \<and>
      x (bird g) = WIDTH div 20 \<and> y (floor_obj g) = HEIGHT - 224)"

definition memento_ok :: "GameMemento \<Rightarrow> bool" where
  "memento_ok m = (length (pipe_states m) = 2 \<and> fst (bird_state m) = WIDTH div 20)"


text \<open>An event that runs no command: no close button, no key of \<open>controls\<close>.\<close>

fun idle_event :: "event \<Rightarrow> bool" where
  "idle_event QUIT = False"
| "idle_event (KEYDOWN k) = (controls k = None)"
| "idle_event Other_event = True"

subsection \<open>Example inputs\<close>

text \<open>
  The sizes are those of the usual sprites after \<open>scale2x\<close>: bird 68 by 48, pipe 104 by
  640, floor 672 by 224 (the source draws the upper pipe at \<open>gap_start - 640\<close> and puts
  the floor at \<open>HEIGHT - 224\<close>).
\<close>

definition env0 :: env where
  "env0 = \<lparr>bird_image = (68, 48), pipe_image = (104, 640), floor_image = (672, 224),
           entropy = (\<lambda>k. 7 * k + 3), recursion_limit = 1000\<rparr>"





text \<open>
  The game 65 ticks after a single flap at the start: the bird has fallen to \<open>y = 765.5\<close>,
  below the floor's bound 752, and the next tick finds the collision.
\<close>

definition fall_state :: game where
  "fall_state =
     \<lparr>PIPE_GAP = 250, highscore = 0,
      flyweights = [''pipe'' \<mapsto> 1],
      created = 2, score = 0, game_over = False,
      bird = \<lparr>x = 28, y = 1531 / 2, height = 48, width = 68,
              vely = 27 / 2, started = True, degree = 13 / 4, rotation = - (349 / 4)\<rparr>,
      pipes = [\<lparr>x = 604, y = (), height = 640, width = 104,
                gap_start = 53, shared_state = ''pipe'', ident = 0\<rparr>,
               \<lparr>x = 944, y = (), height = 640, width = 104,
                gap_start = 60, shared_state = ''pipe'', ident = 1\<rparr>],
      floor_obj = \<lparr>x = - 260, y = 800, height = 224, width = 672\<rparr>,
      difficulty = ''Easy''\<rparr>"


definition leaving_state :: game where
  "leaving_state =
     \<lparr>PIPE_GAP = 250, highscore = 0, flyweights = Map.empty, created = 2,
      score = 1, game_over = False,
      bird = \<lparr>x = 28, y = 400, height = 48, width = 68,
              vely = 0, started = True, degree = 0, rotation = 20\<rparr>,
      pipes = [\<lparr>x = - 105, y = (), height = 640, width = 104,
                gap_start = 300, shared_state = ''pipe'', ident = 0\<rparr>,
               \<lparr>x = 235, y = (), height = 640, width = 104,
                gap_start = 300, shared_state = ''pipe'', ident = 1\<rparr>],
      floor_obj = \<lparr>x = - 100, y = 800, height = 224, width = 672\<rparr>,
      difficulty = ''Easy''\<rparr>"

text \<open>The memento of the game as \<open>Game.__init__\<close> leaves it, and its first pipe under \<open>env0\<close>.\<close>

definition start_memento :: GameMemento where
  "start_memento =
     \<lparr>m_score = 0, m_game_over = False, bird_state = (28, 512),
      pipe_states = [864, 1204], floor_state = 0\<rparr>"


section \<open>The bird\<close>


text \<open>
  C7. The flap command sets the vertical velocity to \<open>-FLAP_POWER = -6\<close>, the rotation to
  20 and the fall-angle accumulator to 0, whatever they were; flapping a second time
  changes nothing. This holds for \<open>Bird.flap\<close> and for \<open>FlapCommand.execute\<close>, which also
  sets \<open>started\<close>.
\<close>

theorem C7_flap_resets:
  "vely (Bird_flap b) = - of_int FLAP_POWER \<and> vely (Bird_flap b) = - 6 \<and>
   rotation (Bird_flap b) = 20 \<and> degree (Bird_flap b) = 0 \<and>
   Bird_flap (Bird_flap b) = Bird_flap b \<and>
   (case execute FlapCommand g of
      Inl e \<Rightarrow> False
    | Inr g1 \<Rightarrow>
        vely (bird g1) = - 6 \<and> rotation (bird g1) = 20 \<and> degree (bird g1) = 0 \<and>
        execute FlapCommand g1 = Inr g1)"
  by (simp add: Bird_flap_def FLAP_POWER_def)

subsection \<open>Rotation\<close>












subsection \<open>Collision\<close>




subsection \<open>Free fall in exact arithmetic\<close>

text \<open>
  With exact rational arithmetic, \<open>n\<close> motion updates add \<open>n * GRAVITY\<close> to the velocity
  and \<open>n * vely + GRAVITY * n * (n + 1) / 2\<close> to \<open>y\<close>. The source computes in binary
  floating point, where each addition rounds: there the sixth update gives the velocity
  \<open>1.8\<close> while \<open>6 * 0.3\<close> is \<open>1.7999999999999998\<close>.
\<close>

lemma Bird_motion_vely_y:
  "vely (Bird_motion b) = vely b + GRAVITY"
  "y (Bird_motion b) = y b + (vely b + GRAVITY)"
  by (simp_all add: Bird_motion_def Let_def)

lemma free_fall_exact:
  "vely ((Bird_motion ^^ n) b) = vely b + of_nat n * GRAVITY \<and>
   y ((Bird_motion ^^ n) b) = y b + of_nat n * vely b + GRAVITY * of_nat n * (of_nat n + 1) / 2"
proof (induction n)
  case 0
  show ?case by simp
next
  case (Suc n)
  then show ?case
    by (simp add: Bird_motion_vely_y algebra_simps add_divide_distrib)
qed

section \<open>The loops of \<open>Game.update\<close>\<close>

subsection \<open>The loop over the pipes\<close>

lemma pipe_loop_done: "\<not> i < length (pipes g) \<Longrightarrow> pipe_loop i rm g = (rm, g)"
  by (simp add: pipe_loop.simps)

lemma pipe_loop_hit:
  "i < length (pipes g) \<Longrightarrow> hits i g \<Longrightarrow>
   pipe_loop i rm g = (rm, g\<lparr>pipes := (pipes g)[i := moved i g], game_over := True\<rparr>)"
  by (simp add: pipe_loop.simps [of i rm g] Let_def hits_def moved_def)

lemma pipe_loop_step:
  "i < length (pipes g) \<Longrightarrow> \<not> hits i g \<Longrightarrow>
   pipe_loop i rm g =
     pipe_loop (Suc i) (if Pipe_offscreen (moved i g) then rm @ [moved i g] else rm) (body i g)"
  by (simp add: pipe_loop.simps [of i rm g] Let_def hits_def moved_def body_def)

lemma pipe_loop_cases [consumes 0, case_names stop hit step]:
  assumes "\<And>i rm g. \<not> i < length (pipes g) \<Longrightarrow> P i rm g"
    and "\<And>i rm g. i < length (pipes g) \<Longrightarrow> hits i g \<Longrightarrow> P i rm g"
    and "\<And>i rm g. i < length (pipes g) \<Longrightarrow> \<not> hits i g \<Longrightarrow>
           P (Suc i) (if Pipe_offscreen (moved i g) then rm @ [moved i g] else rm) (body i g) \<Longrightarrow>
           P i rm g"
  shows "P i rm g"
proof (induction i rm g rule: pipe_loop.induct)
  case (1 i rm g)
  show ?case
  proof (cases "i < length (pipes g)")
    case False
    then show ?thesis by (rule assms(1))
  next
    case True
    show ?thesis
    proof (cases "hits i g")
      case True
      with \<open>i < length (pipes g)\<close> show ?thesis by (rule assms(2))
    next
      case False
      have "P (i + 1) (if Pipe_offscreen (moved i g) then rm @ [moved i g] else rm) (body i g)"
        using "1.IH" [OF True refl refl _ refl refl] False
        by (auto simp add: hits_def moved_def body_def)
      with True False show ?thesis by (simp add: assms(3))
    qed
  qed
qed

lemma body_frame:
  "bird (body i g) = bird g" "floor_obj (body i g) = floor_obj g" "PIPE_GAP (body i g) = PIPE_GAP g"
  "highscore (body i g) = highscore g" "flyweights (body i g) = flyweights g"
  "created (body i g) = created g" "difficulty (body i g) = difficulty g"
  "game_over (body i g) = game_over g"
  "pipes (body i g) = (pipes g)[i := moved i g]"
  "score (body i g) =
     (if x (moved i g) + PIPE_THICKNESS div 2 = x (bird g) then score g + 1 else score g)"
  by (simp_all add: body_def Observer_update_def)

lemma pipe_loop_frame:
  "pipe_loop i rm g = (rm', g') \<Longrightarrow>
     bird g' = bird g \<and> floor_obj g' = floor_obj g \<and> PIPE_GAP g' = PIPE_GAP g \<and>
     highscore g' = highscore g \<and> flyweights g' = flyweights g \<and> created g' = created g \<and>
     difficulty g' = difficulty g \<and> length (pipes g') = length (pipes g)"
proof (induction i rm g rule: pipe_loop_cases)
  case (stop i rm g)
  then show ?case by (simp add: pipe_loop_done)
next
  case (hit i rm g)
  then show ?case by (auto simp: pipe_loop_hit)
next
  case (step i rm g)
  then show ?case by (simp add: pipe_loop_step body_frame)
qed

subsection \<open>New pipes\<close>

lemma valid_gap_le: "valid_gap gap \<Longrightarrow> gap \<le> 700"
  by (auto simp: valid_gap_def)

lemma gap_ok_mono: "gap_ok gap p \<Longrightarrow> gap' \<le> gap \<Longrightarrow> gap_ok gap' p"
  by (simp add: gap_ok_def)

lemma randint_range:
  "a \<le> b \<Longrightarrow> \<exists>v. randint a b r = Inr v \<and> a \<le> v \<and> v \<le> b"
proof -
  assume ab: "a \<le> b"
  have "int (r mod nat (b - a + 1)) < int (nat (b - a + 1))"
    using ab by (intro iffD2 [OF of_nat_less_iff] mod_less_divisor) simp
  then show ?thesis using ab by (simp add: randint_def)
qed

lemma Pipe_init_ok:
  assumes "gap \<le> 700"
  shows "\<exists>p. Pipe_init xv img st gap r i = Inr p \<and> x p = xv \<and> gap_ok gap p \<and>
             width p = fst img \<and> height p = snd img \<and> shared_state p = st \<and> ident p = i"
proof -
  from assms have "(50::int) \<le> HEIGHT - gap - 224 - 50" by (simp add: HEIGHT_def)
  from randint_range [OF this, of r]
  obtain v where "randint 50 (HEIGHT - gap - 224 - 50) r = Inr v" "50 \<le> v" "v \<le> HEIGHT - gap - 224 - 50"
    by blast
  then show ?thesis by (simp add: Pipe_init_def gap_ok_def)
qed

lemma get_flyweight_ok:
  assumes "PIPE_GAP G \<le> 700"
  shows "\<exists>p. get_flyweight E xv st G =
              Inr (p, G\<lparr>flyweights := (flyweights G)(st \<mapsto> ident p), created := created G + 1\<rparr>) \<and>
             x p = xv \<and> gap_ok (PIPE_GAP G) p"
proof -
  from Pipe_init_ok [OF assms]
  obtain p where "Pipe_init xv (pipe_image E) st (PIPE_GAP G) (entropy E (created G)) (created G) = Inr p"
    "x p = xv" "gap_ok (PIPE_GAP G) p" by blast
  then show ?thesis by (simp add: get_flyweight_def)
qed

lemma get_flyweight_Inr:
  "get_flyweight E xv st G = Inr (p, G') \<Longrightarrow>
   G' = G\<lparr>flyweights := (flyweights G)(st \<mapsto> ident p), created := created G + 1\<rparr>"
  by (auto simp: get_flyweight_def split: sum.splits)

subsection \<open>What the loop over the pipes computes\<close>

lemma pipe_loop_clear:
  "pipe_loop i rm g = (rm', g') \<Longrightarrow> \<not> game_over g' \<Longrightarrow> i \<le> length (pipes g) \<Longrightarrow>
   pipes g' = take i (pipes g) @ map Pipe_motion (drop i (pipes g)) \<and>
   rm' = rm @ filter Pipe_offscreen (map Pipe_motion (drop i (pipes g))) \<and>
   score g' = score g + int (length (filter (\<lambda>q. x q + PIPE_THICKNESS div 2 = x (bird g))
                                       (map Pipe_motion (drop i (pipes g)))))"
proof (induction i rm g rule: pipe_loop_cases)
  case (stop i rm g)
  then show ?case by (simp add: pipe_loop_done)
next
  case (hit i rm g)
  then show ?case by (auto simp: pipe_loop_hit)
next
  case (step i rm g)
  let ?ps = "pipes g"
  have d: "drop i ?ps = ?ps ! i # drop (Suc i) ?ps"
    using step.hyps(1) by (simp add: Cons_nth_drop_Suc)
  have t: "take (Suc i) (?ps[i := moved i g]) = take i ?ps @ [moved i g]"
    using step.hyps(1) by (simp add: take_Suc_conv_app_nth)
  from step.prems step.hyps have run:
    "pipe_loop (Suc i) (if Pipe_offscreen (moved i g) then rm @ [moved i g] else rm) (body i g) = (rm', g')"
    by (simp add: pipe_loop_step)
  have len: "Suc i \<le> length (pipes (body i g))"
    using step.hyps(1) by (simp add: body_frame)
  from step.IH [OF run step.prems(2) len]
  show ?case
    using step.hyps(1) by (simp add: body_frame t d) (simp add: moved_def)
qed


lemma mset_take_sub: "mset (take i xs) \<subseteq># mset xs"
proof -
  have "mset xs = mset (take i xs) + mset (drop i xs)"
    by (metis append_take_drop_id mset_append)
  then show ?thesis by simp
qed

lemma sub_add_mset: "A \<subseteq># B \<Longrightarrow> A \<subseteq># add_mset q B"
  by (simp add: subseteq_mset_def le_SucI)

lemma pipe_loop_rm_sub:
  "pipe_loop i rm g = (rm', g') \<Longrightarrow> i \<le> length (pipes g) \<Longrightarrow>
   mset rm \<subseteq># mset (take i (pipes g)) \<Longrightarrow> mset rm' \<subseteq># mset (pipes g')"
proof (induction i rm g rule: pipe_loop_cases)
  case (stop i rm g)
  then show ?case by (simp add: pipe_loop_done)
next
  case (hit i rm g)
  have "mset (take i ((pipes g)[i := moved i g])) \<subseteq># mset ((pipes g)[i := moved i g])"
    by (rule mset_take_sub)
  then have "mset rm \<subseteq># mset ((pipes g)[i := moved i g])"
    using hit.prems(3) by (simp add: subset_mset.order_trans)
  with hit show ?case by (auto simp: pipe_loop_hit)
next
  case (step i rm g)
  let ?rm1 = "if Pipe_offscreen (moved i g) then rm @ [moved i g] else rm"
  from step.prems step.hyps have run: "pipe_loop (Suc i) ?rm1 (body i g) = (rm', g')"
    by (simp add: pipe_loop_step)
  have len: "Suc i \<le> length (pipes (body i g))"
    using step.hyps(1) by (simp add: body_frame)
  have t: "take (Suc i) (pipes (body i g)) = take i (pipes g) @ [moved i g]"
    using step.hyps(1) by (simp add: body_frame take_Suc_conv_app_nth)
  have "mset rm \<subseteq># mset (take i (pipes g)) + {#moved i g#}"
    using step.prems(3) by (simp add: sub_add_mset)
  then have "mset ?rm1 \<subseteq># mset (take (Suc i) (pipes (body i g)))"
    using step.prems(3) by (simp add: t)
  from step.IH [OF run len this] show ?case .
qed

lemma list_all_update:
  "list_all Q xs \<Longrightarrow> Q v \<Longrightarrow> list_all Q (xs[i := v])"
  by (auto simp: list_all_iff dest: set_update_subset_insert [THEN subsetD])

lemma pipe_loop_all:
  assumes Q: "\<And>p. Q (Pipe_motion p) = Q p"
  shows "pipe_loop i rm g = (rm', g') \<Longrightarrow> list_all Q (pipes g) \<Longrightarrow> list_all Q (pipes g')"
proof (induction i rm g rule: pipe_loop_cases)
  case (stop i rm g)
  then show ?case by (simp add: pipe_loop_done)
next
  case (hit i rm g)
  have "Q (moved i g)"
    using hit.prems(2) hit.hyps(1) by (simp add: moved_def Q list_all_length)
  with hit show ?case by (auto simp: pipe_loop_hit list_all_update)
next
  case (step i rm g)
  have "Q (moved i g)"
    using step.prems(2) step.hyps(1) by (simp add: moved_def Q list_all_length)
  then have "list_all Q (pipes (body i g))"
    using step.prems(2) by (simp add: body_frame list_all_update)
  moreover from step.prems step.hyps
  have "pipe_loop (Suc i) (if Pipe_offscreen (moved i g) then rm @ [moved i g] else rm) (body i g) = (rm', g')"
    by (simp add: pipe_loop_step)
  ultimately show ?case using step.IH by blast
qed

subsection \<open>The loop over the pipes to remove\<close>

lemma remove_loop_frame:
  "remove_loop E rm g = Inr g' \<Longrightarrow>
   score g' = score g \<and> game_over g' = game_over g \<and> bird g' = bird g \<and>
   floor_obj g' = floor_obj g \<and> PIPE_GAP g' = PIPE_GAP g \<and> highscore g' = highscore g \<and>
   difficulty g' = difficulty g"
proof (induction rm arbitrary: g)
  case Nil
  then show ?case by simp
next
  case (Cons p rm)
  from Cons.prems obtain q g1 where
    q: "get_flyweight E WIDTH ''pipe'' (g\<lparr>pipes := remove1 p (pipes g)\<rparr>) = Inr (q, g1)"
    and run: "remove_loop E rm (g1\<lparr>pipes := pipes g1 @ [q]\<rparr>) = Inr g'"
    by (auto split: if_splits sum.splits)
  from Cons.IH [OF run] get_flyweight_Inr [OF q] show ?case by simp
qed

lemma remove_loop_ok:
  "PIPE_GAP g \<le> 700 \<Longrightarrow> mset rm \<subseteq># mset (pipes g) \<Longrightarrow>
   \<exists>g'. remove_loop E rm g = Inr g' \<and> length (pipes g') = length (pipes g) \<and>
        PIPE_GAP g' = PIPE_GAP g \<and> bird g' = bird g \<and> floor_obj g' = floor_obj g \<and>
        score g' = score g \<and> game_over g' = game_over g \<and> highscore g' = highscore g \<and>
        difficulty g' = difficulty g \<and>
        (list_all (gap_ok (PIPE_GAP g)) (pipes g) \<longrightarrow> list_all (gap_ok (PIPE_GAP g)) (pipes g'))"
proof (induction rm arbitrary: g)
  case Nil
  then show ?case by simp
next
  case (Cons p rm)
  from Cons.prems(2) have pin: "p \<in> set (pipes g)"
    by (metis mset_subset_eqD list.set_intros(1) set_mset_mset)
  let ?g0 = "g\<lparr>pipes := remove1 p (pipes g)\<rparr>"
  from get_flyweight_ok [of ?g0 E WIDTH "''pipe''"] Cons.prems(1)
  obtain q where q: "get_flyweight E WIDTH ''pipe'' ?g0 =
       Inr (q, ?g0\<lparr>flyweights := (flyweights ?g0)(''pipe'' \<mapsto> ident q), created := created ?g0 + 1\<rparr>)"
     and qok: "gap_ok (PIPE_GAP g) q"
    by auto
  define g2 where
    "g2 = ?g0\<lparr>flyweights := (flyweights ?g0)(''pipe'' \<mapsto> ident q), created := created ?g0 + 1,
              pipes := remove1 p (pipes g) @ [q]\<rparr>"
  have step: "remove_loop E (p # rm) g = remove_loop E rm g2"
    using pin q by (simp add: g2_def)
  have gap2: "PIPE_GAP g2 \<le> 700" using Cons.prems(1) by (simp add: g2_def)
  have "mset rm \<subseteq># mset (pipes g) - {#p#}"
    using Cons.prems(2) by (simp add: insert_subset_eq_iff)
  then have sub2: "mset rm \<subseteq># mset (pipes g2)"
    using pin by (simp add: g2_def sub_add_mset)
  have len2: "length (pipes g2) = length (pipes g)"
    using pin by (simp add: g2_def length_remove1) (cases "pipes g"; simp)
  have all2: "list_all (gap_ok (PIPE_GAP g)) (pipes g) \<Longrightarrow> list_all (gap_ok (PIPE_GAP g)) (pipes g2)"
    using qok by (auto simp: g2_def list_all_iff dest: notin_set_remove1)
  from Cons.IH [OF gap2 sub2] obtain g' where
    "remove_loop E rm g2 = Inr g'" "length (pipes g') = length (pipes g2)"
    "PIPE_GAP g' = PIPE_GAP g2" "bird g' = bird g2" "floor_obj g' = floor_obj g2"
    "score g' = score g2" "game_over g' = game_over g2" "highscore g' = highscore g2"
    "difficulty g' = difficulty g2"
    "list_all (gap_ok (PIPE_GAP g2)) (pipes g2) \<longrightarrow> list_all (gap_ok (PIPE_GAP g2)) (pipes g')"
    by blast
  then show ?case
    using step len2 all2 by (simp add: g2_def)
qed


lemma remove_loop_filter:
  "PIPE_GAP g \<le> 700 \<Longrightarrow> pipes g = pre @ zs @ rest \<Longrightarrow> list_all (\<lambda>p. \<not> P p) pre \<Longrightarrow>
   \<exists>news g'. remove_loop E (filter P zs) g = Inr g' \<and>
      pipes g' = pre @ filter (\<lambda>p. \<not> P p) zs @ rest @ news \<and>
      length news = length (filter P zs) \<and> list_all (spawned (PIPE_GAP g)) news"
proof (induction zs arbitrary: pre rest g)
  case Nil
  then show ?case by simp
next
  case (Cons z zs)
  show ?case
  proof (cases "P z")
    case False
    have "pipes g = (pre @ [z]) @ zs @ rest" using Cons.prems(2) by simp
    moreover have "list_all (\<lambda>p. \<not> P p) (pre @ [z])" using Cons.prems(3) False by simp
    ultimately obtain news g' where
      "remove_loop E (filter P zs) g = Inr g'"
      "pipes g' = (pre @ [z]) @ filter (\<lambda>p. \<not> P p) zs @ rest @ news"
      "length news = length (filter P zs)" "list_all (spawned (PIPE_GAP g)) news"
      using Cons.IH [OF Cons.prems(1)] by blast
    with False show ?thesis by auto
  next
    case True
    have notpre: "z \<notin> set pre" using Cons.prems(3) True by (auto simp: list_all_iff)
    have zin: "z \<in> set (pipes g)" using Cons.prems(2) by simp
    have rem: "remove1 z (pipes g) = pre @ zs @ rest"
      using Cons.prems(2) notpre by (simp add: remove1_append)
    let ?g0 = "g\<lparr>pipes := remove1 z (pipes g)\<rparr>"
    from get_flyweight_ok [of ?g0 E WIDTH "''pipe''"] Cons.prems(1)
    obtain q where q: "get_flyweight E WIDTH ''pipe'' ?g0 =
         Inr (q, ?g0\<lparr>flyweights := (flyweights ?g0)(''pipe'' \<mapsto> ident q), created := created ?g0 + 1\<rparr>)"
       and qok: "x q = WIDTH" "gap_ok (PIPE_GAP g) q"
      by auto
    define g2 where
      "g2 = ?g0\<lparr>flyweights := (flyweights ?g0)(''pipe'' \<mapsto> ident q), created := created ?g0 + 1,
                pipes := remove1 z (pipes g) @ [q]\<rparr>"
    have step: "remove_loop E (filter P (z # zs)) g = remove_loop E (filter P zs) g2"
      using True zin q by (simp add: g2_def)
    have gap2: "PIPE_GAP g2 \<le> 700" and gapeq: "PIPE_GAP g2 = PIPE_GAP g"
      using Cons.prems(1) by (simp_all add: g2_def)
    have ps2: "pipes g2 = pre @ zs @ (rest @ [q])" by (simp add: g2_def rem)
    from Cons.IH [OF gap2 ps2 Cons.prems(3)] obtain news g' where
      "remove_loop E (filter P zs) g2 = Inr g'"
      "pipes g' = pre @ filter (\<lambda>p. \<not> P p) zs @ (rest @ [q]) @ news"
      "length news = length (filter P zs)" "list_all (spawned (PIPE_GAP g2)) news"
      by blast
    then have "remove_loop E (filter P (z # zs)) g = Inr g' \<and>
      pipes g' = pre @ filter (\<lambda>p. \<not> P p) (z # zs) @ rest @ (q # news) \<and>
      length (q # news) = length (filter P (z # zs)) \<and> list_all (spawned (PIPE_GAP g)) (q # news)"
      using step True qok gapeq by (simp add: spawned_def)
    then show ?thesis by blast
  qed
qed

subsection \<open>One tick\<close>

lemma wrap_floor_frame:
  "game_over (wrap_floor g) = game_over g" "pipes (wrap_floor g) = pipes g"
  "bird (wrap_floor g) = bird g" "PIPE_GAP (wrap_floor g) = PIPE_GAP g"
  "score (wrap_floor g) = score g" "highscore (wrap_floor g) = highscore g"
  "difficulty (wrap_floor g) = difficulty g"
  by (simp_all add: wrap_floor_def)

lemma update_over: "game_over g \<Longrightarrow> update E g = Inr g"
  by (simp add: update_def)

lemma update_ok:
  assumes "\<not> game_over g" "PIPE_GAP g \<le> 700"
  shows "\<exists>g'. update E g = Inr g' \<and> length (pipes g') = length (pipes g) \<and>
           PIPE_GAP g' = PIPE_GAP g \<and> bird g' = Bird_motion (bird g) \<and>
           floor_obj g' = Floor_motion (floor_obj (wrap_floor g)) \<and>
           highscore g' = highscore g \<and> difficulty g' = difficulty g \<and>
           (list_all (gap_ok (PIPE_GAP g)) (pipes g) \<longrightarrow> list_all (gap_ok (PIPE_GAP g)) (pipes g'))"
proof -
  obtain rm g2 where loop: "pipe_loop 0 [] (wrap_floor g) = (rm, g2)"
    by (cases "pipe_loop 0 [] (wrap_floor g)")
  note fr = pipe_loop_frame [OF loop]
  have sub: "mset rm \<subseteq># mset (pipes g2)"
    using pipe_loop_rm_sub [OF loop] by simp
  have gap2: "PIPE_GAP g2 \<le> 700" using fr assms(2) by (simp add: wrap_floor_frame)
  have all2: "list_all (gap_ok (PIPE_GAP g)) (pipes g) \<Longrightarrow> list_all (gap_ok (PIPE_GAP g)) (pipes g2)"
    using pipe_loop_all [of "gap_ok (PIPE_GAP g)", OF _ loop]
    by (simp add: gap_ok_def Pipe_motion_def wrap_floor_frame)
  from remove_loop_ok [OF gap2 sub, of E] obtain g3 where
    "remove_loop E rm g2 = Inr g3" "length (pipes g3) = length (pipes g2)"
    "PIPE_GAP g3 = PIPE_GAP g2" "bird g3 = bird g2" "floor_obj g3 = floor_obj g2"
    "highscore g3 = highscore g2" "difficulty g3 = difficulty g2"
    "list_all (gap_ok (PIPE_GAP g2)) (pipes g2) \<longrightarrow> list_all (gap_ok (PIPE_GAP g2)) (pipes g3)"
    by blast
  then show ?thesis
    using assms(1) loop fr all2
    by (simp add: update_def after_loop_def wrap_floor_frame)
qed

lemma update_recycle:
  assumes "\<not> game_over g" "PIPE_GAP g \<le> 700" "update E g = Inr g'" "\<not> game_over g'"
  shows "\<exists>news. pipes g' = filter (\<lambda>p. \<not> Pipe_offscreen p) (map Pipe_motion (pipes g)) @ news \<and>
           length news = length (filter Pipe_offscreen (map Pipe_motion (pipes g))) \<and>
           list_all (spawned (PIPE_GAP g)) news"
proof -
  obtain rm g2 where loop: "pipe_loop 0 [] (wrap_floor g) = (rm, g2)"
    by (cases "pipe_loop 0 [] (wrap_floor g)")
  note fr = pipe_loop_frame [OF loop]
  have gap2: "PIPE_GAP g2 \<le> 700" and gapeq: "PIPE_GAP g2 = PIPE_GAP g"
    using fr assms(2) by (simp_all add: wrap_floor_frame)
  from assms(1,3) loop obtain g3 where
    g3: "remove_loop E rm g2 = Inr g3"
    and g': "g' = g3\<lparr>bird := Bird_motion (bird g3), floor_obj := Floor_motion (floor_obj g3)\<rparr>"
    by (auto simp: update_def after_loop_def split: sum.splits)
  from remove_loop_frame [OF g3] g' assms(4) have no2: "\<not> game_over g2" by simp
  from pipe_loop_clear [OF loop no2]
  have ps2: "pipes g2 = map Pipe_motion (pipes g)"
    and rm: "rm = filter Pipe_offscreen (map Pipe_motion (pipes g))"
    by (simp_all add: wrap_floor_frame)
  have "pipes g2 = [] @ map Pipe_motion (pipes g) @ []" using ps2 by simp
  from remove_loop_filter [OF gap2 this, of Pipe_offscreen E]
  obtain news g3' where "remove_loop E (filter Pipe_offscreen (map Pipe_motion (pipes g))) g2 = Inr g3'"
    "pipes g3' = filter (\<lambda>p. \<not> Pipe_offscreen p) (map Pipe_motion (pipes g)) @ news"
    "length news = length (filter Pipe_offscreen (map Pipe_motion (pipes g)))"
    "list_all (spawned (PIPE_GAP g2)) news"
    by auto
  then show ?thesis
    using g3 rm g' gapeq by auto
qed



lemma Bird_motion_x: "x (Bird_motion b) = x b"
  by (simp add: Bird_motion_def Let_def)

lemma floor_step_y: "y (Floor_motion (floor_obj (wrap_floor g))) = y (floor_obj g)"
  by (simp add: Floor_motion_def wrap_floor_def)

section \<open>Restoring, input and the main loop\<close>

lemma make_pipes_ok:
  "PIPE_GAP G \<le> 700 \<Longrightarrow>
   \<exists>ps G'. make_pipes E xs G = Inr (ps, G') \<and> map x ps = xs \<and>
      list_all (gap_ok (PIPE_GAP G)) ps \<and>
      G' = G\<lparr>flyweights := flyweights G', created := created G'\<rparr>"
proof (induction xs arbitrary: G)
  case Nil
  then show ?case by simp
next
  case (Cons xv xs)
  from get_flyweight_ok [OF Cons.prems, of E xv "''pipe''"]
  obtain p where p: "get_flyweight E xv ''pipe'' G =
       Inr (p, G\<lparr>flyweights := (flyweights G)(''pipe'' \<mapsto> ident p), created := created G + 1\<rparr>)"
    "x p = xv" "gap_ok (PIPE_GAP G) p" by blast
  let ?G1 = "G\<lparr>flyweights := (flyweights G)(''pipe'' \<mapsto> ident p), created := created G + 1\<rparr>"
  have "PIPE_GAP ?G1 \<le> 700" using Cons.prems by simp
  from Cons.IH [OF this] obtain ps G' where
    r: "make_pipes E xs ?G1 = Inr (ps, G')" "map x ps = xs" "list_all (gap_ok (PIPE_GAP ?G1)) ps"
    "G' = ?G1\<lparr>flyweights := flyweights G', created := created G'\<rparr>"
    by blast
  have "G' = G\<lparr>flyweights := flyweights G', created := created G'\<rparr>"
    by (subst r(4)) simp
  with p r show ?case by simp
qed

lemma restore_ok:
  assumes "PIPE_GAP g \<le> 700"
  shows "\<exists>g'. restore_from_memento E m g = Inr g' \<and>
           score g' = m_score m \<and> game_over g' = m_game_over m \<and>
           bird g' = Bird_init (fst (bird_state m)) (snd (bird_state m)) (bird_image E) \<and>
           map x (pipes g') = pipe_states m \<and>
           floor_obj g' = Floor_init (floor_state m) (HEIGHT - 224) (floor_image E) \<and>
           list_all (gap_ok (PIPE_GAP g)) (pipes g') \<and>
           PIPE_GAP g' = PIPE_GAP g \<and> highscore g' = highscore g \<and> difficulty g' = difficulty g"
proof -
  let ?g2 = "g\<lparr>score := m_score m, game_over := m_game_over m,
               bird := Bird_init (fst (bird_state m)) (snd (bird_state m)) (bird_image E)\<rparr>"
  have "PIPE_GAP ?g2 \<le> 700" using assms by simp
  from make_pipes_ok [OF this, of E "pipe_states m"] obtain ps g3 where
    r: "make_pipes E (pipe_states m) ?g2 = Inr (ps, g3)" "map x ps = pipe_states m"
       "list_all (gap_ok (PIPE_GAP ?g2)) ps"
       "g3 = ?g2\<lparr>flyweights := flyweights g3, created := created g3\<rparr>"
    by blast
  have f: "score g3 = m_score m" "game_over g3 = m_game_over m"
    "bird g3 = Bird_init (fst (bird_state m)) (snd (bird_state m)) (bird_image E)"
    "PIPE_GAP g3 = PIPE_GAP g" "highscore g3 = highscore g" "difficulty g3 = difficulty g"
    by (subst r(4), simp)+
  show ?thesis
    using r(1,2,3) f by (simp add: restore_from_memento_def Let_def)
qed

lemma execute_frame:
  "execute c g = Inr g1 \<Longrightarrow>
   pipes g1 = pipes g \<and> PIPE_GAP g1 = PIPE_GAP g \<and> score g1 = score g \<and>
   game_over g1 = game_over g \<and> floor_obj g1 = floor_obj g \<and> highscore g1 = highscore g \<and>
   difficulty g1 = difficulty g \<and> x (bird g1) = x (bird g)"
  by (cases c) (auto simp: Bird_flap_def)

lemma execute_exn: "execute c g = Inl e \<Longrightarrow> e = SystemExit"
  by (cases c) auto

lemma handle_input_frame:
  "handle_input evs g = Inr g' \<Longrightarrow>
   pipes g' = pipes g \<and> PIPE_GAP g' = PIPE_GAP g \<and> score g' = score g \<and>
   game_over g' = game_over g \<and> floor_obj g' = floor_obj g \<and> highscore g' = highscore g \<and>
   difficulty g' = difficulty g \<and> x (bird g') = x (bird g)"
proof (induction evs arbitrary: g)
  case Nil
  then show ?case by simp
next
  case (Cons ev evs)
  show ?case
  proof (cases ev)
    case QUIT
    with Cons.prems show ?thesis by simp
  next
    case Other_event
    with Cons show ?thesis by simp
  next
    case (KEYDOWN k)
    show ?thesis
    proof (cases "controls k")
      case None
      with KEYDOWN Cons show ?thesis by simp
    next
      case (Some c)
      with KEYDOWN Cons.prems obtain g1 where
        g1: "execute c g = Inr g1" "handle_input evs g1 = Inr g'"
        by (cases "execute c g") simp_all
      from Cons.IH [OF g1(2)] execute_frame [OF g1(1)] show ?thesis by simp
    qed
  qed
qed

lemma handle_input_exn: "handle_input evs g = Inl e \<Longrightarrow> e = SystemExit"
proof (induction evs arbitrary: g)
  case Nil
  then show ?case by simp
next
  case (Cons ev evs)
  show ?case
  proof (cases ev)
    case QUIT
    with Cons.prems show ?thesis by simp
  next
    case Other_event
    with Cons show ?thesis by simp
  next
    case (KEYDOWN k)
    show ?thesis
    proof (cases "controls k")
      case None
      with KEYDOWN Cons show ?thesis by simp
    next
      case (Some c)
      show ?thesis
      proof (cases "execute c g")
        case (Inl e')
        with Some KEYDOWN Cons.prems execute_exn [OF Inl] show ?thesis by simp
      next
        case (Inr g1)
        with Some KEYDOWN Cons show ?thesis by simp
      qed
    qed
  qed
qed

lemma advance_inv:
  assumes "round_inv g"
  shows "\<exists>g'. advance E g = Inr g' \<and> round_inv g'"
proof (cases "started (bird g) \<and> \<not> game_over g")
  case False
  with assms show ?thesis by (auto simp: advance_def update_over)
next
  case True
  have "PIPE_GAP g \<le> 700" using assms by (simp add: round_inv_def valid_gap_le)
  from update_ok [OF _ this, of E] True obtain g' where
    g': "update E g = Inr g'" "length (pipes g') = length (pipes g)"
    "PIPE_GAP g' = PIPE_GAP g" "bird g' = Bird_motion (bird g)"
    "floor_obj g' = Floor_motion (floor_obj (wrap_floor g))"
    "list_all (gap_ok (PIPE_GAP g)) (pipes g) \<longrightarrow> list_all (gap_ok (PIPE_GAP g)) (pipes g')"
    by blast
  then have "round_inv g'"
    using assms by (simp add: round_inv_def Bird_motion_x floor_step_y)
  with g'(1) True show ?thesis by (simp add: advance_def)
qed

lemma endgame_frame:
  "pipes (endgame g) = pipes g" "PIPE_GAP (endgame g) = PIPE_GAP g" "game_over (endgame g)"
  "score (endgame g) = score g" "bird (endgame g) = bird g" "floor_obj (endgame g) = floor_obj g"
  by (simp_all add: endgame_def Let_def)

lemma restore_inv:
  assumes "valid_gap (PIPE_GAP g)" "memento_ok m"
  shows "\<exists>g'. restore_from_memento E m g = Inr g' \<and> round_inv g' \<and> memento_ok (create_memento g')"
proof -
  have "PIPE_GAP g \<le> 700" using assms(1) by (rule valid_gap_le)
  from restore_ok [OF this, of E m] obtain g' where
    g': "restore_from_memento E m g = Inr g'" "map x (pipes g') = pipe_states m"
        "bird g' = Bird_init (fst (bird_state m)) (snd (bird_state m)) (bird_image E)"
        "floor_obj g' = Floor_init (floor_state m) (HEIGHT - 224) (floor_image E)"
        "list_all (gap_ok (PIPE_GAP g)) (pipes g')" "PIPE_GAP g' = PIPE_GAP g"
    by blast
  have len: "length (pipes g') = 2"
    using g'(2) assms(2) by (metis length_map memento_ok_def)
  have inv: "round_inv g'"
    using g' len assms
    by (simp add: round_inv_def memento_ok_def Bird_init_def Floor_init_def Sprite_init_def)
  then have "memento_ok (create_memento g')"
    by (simp add: memento_ok_def create_memento_def round_inv_def)
  with g'(1) inv show ?thesis by blast
qed

lemma main_loop_inv:
  "round_inv g \<Longrightarrow> memento_ok m \<Longrightarrow>
   main_loop E frames m d g = Inl SystemExit \<or> main_loop E frames m d g = Inl RecursionError \<or>
   (\<exists>g'. main_loop E frames m d g = Inr g' \<and> round_inv g')"
proof (induction frames arbitrary: m d g)
  case Nil
  then show ?case by simp
next
  case (Cons evs frames)
  show ?case
  proof (cases "handle_input evs g")
    case (Inl e)
    with handle_input_exn [OF Inl] show ?thesis by simp
  next
    case (Inr g1)
    from handle_input_frame [OF Inr] Cons.prems(1) have inv1: "round_inv g1"
      by (simp add: round_inv_def)
    from advance_inv [OF inv1, of E] obtain g2 where
      g2: "advance E g1 = Inr g2" "round_inv g2" by blast
    show ?thesis
    proof (cases "game_over g2")
      case False
      with Inr g2 Cons.IH [OF g2(2) Cons.prems(2), of d] show ?thesis by simp
    next
      case True
      have "valid_gap (PIPE_GAP (endgame g2))"
        using g2(2) by (simp add: endgame_frame round_inv_def)
      from restore_inv [OF this Cons.prems(2), of E] obtain g3 where
        g3: "restore_from_memento E m (endgame g2) = Inr g3" "round_inv g3"
            "memento_ok (create_memento g3)"
        by blast
      from Cons.IH [OF g3(2,3), of "Suc d"] Inr g2 True g3(1) show ?thesis by simp
    qed
  qed
qed

lemma Game_init_ok:
  "\<exists>g0. Game_init E argv module_globals = Inr g0 \<and> round_inv g0 \<and>
      score g0 = 0 \<and> \<not> game_over g0 \<and>
      bird g0 = Bird_init (WIDTH div 20) (of_int (HEIGHT div 2)) (bird_image E) \<and>
      map x (pipes g0) = [WIDTH + WIDTH div 2, WIDTH + WIDTH div 2 + 340] \<and>
      floor_obj g0 = Floor_init 0 (HEIGHT - 224) (floor_image E)"
proof -
  let ?G = module_globals
  have gapG: "PIPE_GAP ?G \<le> 700" "PIPE_GAP ?G = 250"
    by (simp_all add: module_globals_def PIPE_GAP_initial_def)
  from get_flyweight_ok [OF gapG(1), of E "WIDTH + WIDTH div 2" "''pipe''"]
  obtain p1 where p1: "get_flyweight E (WIDTH + WIDTH div 2) ''pipe'' ?G =
      Inr (p1, ?G\<lparr>flyweights := (flyweights ?G)(''pipe'' \<mapsto> ident p1), created := created ?G + 1\<rparr>)"
    "x p1 = WIDTH + WIDTH div 2" "gap_ok 250 p1"
    using gapG(2) by auto
  let ?G1 = "?G\<lparr>flyweights := (flyweights ?G)(''pipe'' \<mapsto> ident p1), created := created ?G + 1\<rparr>"
  have gapG1: "PIPE_GAP ?G1 \<le> 700" "PIPE_GAP ?G1 = 250" using gapG by simp_all
  from get_flyweight_ok [OF gapG1(1), of E "WIDTH + WIDTH div 2 + 340" "''pipe''"]
  obtain p2 where p2: "get_flyweight E (WIDTH + WIDTH div 2 + 340) ''pipe'' ?G1 =
      Inr (p2, ?G1\<lparr>flyweights := (flyweights ?G1)(''pipe'' \<mapsto> ident p2), created := created ?G1 + 1\<rparr>)"
    "x p2 = WIDTH + WIDTH div 2 + 340" "gap_ok 250 p2"
    using gapG1(2) by auto
  have ok: "gap_ok 200 p1" "gap_ok 150 p1" "gap_ok 200 p2" "gap_ok 150 p2"
    using p1(3) p2(3) by (auto intro: gap_ok_mono)
  show ?thesis
    using p1 p2 ok gapG(2)
    by (simp add: Game_init_def Let_def round_inv_def valid_gap_def Bird_init_def
        Floor_init_def Sprite_init_def)
qed

lemma main_inv:
  assumes "Game_init E argv module_globals = Inr g0"
  shows "main E frames g0 = Inl SystemExit \<or> main E frames g0 = Inl RecursionError \<or>
         (\<exists>g. main E frames g0 = Inr g \<and> round_inv g)"
proof -
  from Game_init_ok [of E argv] assms have inv: "round_inv g0" by auto
  then have "memento_ok (create_memento g0)"
    by (simp add: memento_ok_def create_memento_def round_inv_def)
  from main_loop_inv [OF inv this] show ?thesis by (simp add: main_def)
qed


lemma handle_input_idle: "list_all idle_event evs \<Longrightarrow> handle_input evs g = Inr g"
proof (induction evs)
  case Nil
  show ?case by simp
next
  case (Cons ev evs)
  then show ?case by (cases ev) simp_all
qed

lemma main_loop_idle:
  "list_all (list_all idle_event) frames \<Longrightarrow> \<not> started (bird g) \<Longrightarrow> \<not> game_over g \<Longrightarrow>
   main_loop E frames m d g = Inr g"
proof (induction frames)
  case Nil
  show ?case by simp
next
  case (Cons evs frames)
  then show ?case by (simp add: handle_input_idle advance_def)
qed





section \<open>The claims about the game\<close>



text \<open>
  C3. \<open>Game.__init__\<close> creates two pipes, and every state that the main loop reaches from
  it has two; the loop raises no \<open>ValueError\<close>. A tick of a game that is not over keeps
  the number of pipes, and when it ends with the game not over the list is: the moved
  pipes that are not off-screen, in their order, followed by one new pipe at
  \<open>x = WIDTH\<close> with a gap in range for every pipe that is off-screen.
\<close>

theorem C3_two_pipes:
  "(\<exists>g0. Game_init E argv module_globals = Inr g0 \<and> length (pipes g0) = 2) \<and>
   (Game_init E argv module_globals = Inr g0 \<longrightarrow>
      main E frames g0 \<noteq> Inl ValueError \<and>
      (main E frames g0 = Inr g \<longrightarrow> length (pipes g) = 2)) \<and>
   (valid_gap (PIPE_GAP g1) \<and> \<not> game_over g1 \<longrightarrow>
      (\<exists>g2. update E g1 = Inr g2 \<and> length (pipes g2) = length (pipes g1) \<and>
         (\<not> game_over g2 \<longrightarrow>
            (\<exists>news. pipes g2 =
                      filter (\<lambda>p. \<not> Pipe_offscreen p) (map Pipe_motion (pipes g1)) @ news \<and>
                    length news = length (filter Pipe_offscreen (map Pipe_motion (pipes g1))) \<and>
                    list_all (spawned (PIPE_GAP g1)) news))))"
proof -
  have 1: "\<exists>g0. Game_init E argv module_globals = Inr g0 \<and> length (pipes g0) = 2"
    using Game_init_ok [of E argv] by (auto simp: round_inv_def)
  have 2: "main E frames g0 \<noteq> Inl ValueError \<and>
      (main E frames g0 = Inr g \<longrightarrow> length (pipes g) = 2)"
    if "Game_init E argv module_globals = Inr g0"
    using main_inv [OF that, of frames] by (auto simp: round_inv_def)
  have 3: "\<exists>g2. update E g1 = Inr g2 \<and> length (pipes g2) = length (pipes g1) \<and>
         (\<not> game_over g2 \<longrightarrow>
            (\<exists>news. pipes g2 =
                      filter (\<lambda>p. \<not> Pipe_offscreen p) (map Pipe_motion (pipes g1)) @ news \<and>
                    length news = length (filter Pipe_offscreen (map Pipe_motion (pipes g1))) \<and>
                    list_all (spawned (PIPE_GAP g1)) news))"
    if "valid_gap (PIPE_GAP g1)" "\<not> game_over g1"
  proof -
    have le: "PIPE_GAP g1 \<le> 700" using that(1) by (rule valid_gap_le)
    from update_ok [OF that(2) le, of E] obtain g2 where
      g2: "update E g1 = Inr g2" "length (pipes g2) = length (pipes g1)" by blast
    from update_recycle [OF that(2) le g2(1)] g2 show ?thesis by blast
  qed
  from 1 2 3 show ?thesis by blast
qed

theorem C3_two_pipes_witness:
  "(case Game_init env0 [] module_globals of
      Inl e \<Rightarrow> False
    | Inr g0 \<Rightarrow>
        (case main env0 [[KEYDOWN K_SPACE], [], [KEYDOWN K_UP]] g0 of
           Inl e \<Rightarrow> False
         | Inr g \<Rightarrow> length (pipes g) = 2)) \<and>
   valid_gap (PIPE_GAP leaving_state) \<and> \<not> game_over leaving_state \<and>
   (\<exists>g2. update env0 leaving_state = Inr g2 \<and> length (pipes g2) = 2 \<and> \<not> game_over g2 \<and>
      (\<exists>news. pipes g2 = [Pipe_motion (pipes leaving_state ! 1)] @ news \<and> length news = 1 \<and>
          list_all (spawned 250) news))"
proof -
  have "case Game_init env0 [] module_globals of
      Inl e \<Rightarrow> False
    | Inr g0 \<Rightarrow>
        (case main env0 [[KEYDOWN K_SPACE], [], [KEYDOWN K_UP]] g0 of
           Inl e \<Rightarrow> False
         | Inr g \<Rightarrow> True)"
    by code_simp
  then obtain g0 g where a: "Game_init env0 [] module_globals = Inr g0"
    and b: "main env0 [[KEYDOWN K_SPACE], [], [KEYDOWN K_UP]] g0 = Inr g"
    by (auto split: sum.splits)
  note T = C3_two_pipes [of env0 "[]" g0 "[[KEYDOWN K_SPACE], [], [KEYDOWN K_UP]]" g leaving_state]
  from T a b have 1: "length (pipes g) = 2" by blast
  have v: "valid_gap (PIPE_GAP leaving_state)" "\<not> game_over leaving_state"
    by (simp_all add: valid_gap_def leaving_state_def)
  have e: "case update env0 leaving_state of Inl e \<Rightarrow> False | Inr g2 \<Rightarrow> \<not> game_over g2"
    by code_simp
  have f: "filter (\<lambda>p. \<not> Pipe_offscreen p) (map Pipe_motion (pipes leaving_state)) =
           [Pipe_motion (pipes leaving_state ! 1)]"
    "length (filter Pipe_offscreen (map Pipe_motion (pipes leaving_state))) = 1"
    "length (pipes leaving_state) = 2" "PIPE_GAP leaving_state = 250"
    by (simp_all add: leaving_state_def Pipe_motion_def Pipe_offscreen_def PIPE_SPEED_def
        PIPE_THICKNESS_def)
  from T v obtain g2 where g2: "update env0 leaving_state = Inr g2"
    "length (pipes g2) = length (pipes leaving_state)"
    "\<not> game_over g2 \<longrightarrow>
            (\<exists>news. pipes g2 =
                      filter (\<lambda>p. \<not> Pipe_offscreen p) (map Pipe_motion (pipes leaving_state)) @ news \<and>
                    length news = length (filter Pipe_offscreen (map Pipe_motion (pipes leaving_state))) \<and>
                    list_all (spawned (PIPE_GAP leaving_state)) news)"
    by blast
  from e g2(1) have ng: "\<not> game_over g2" by simp
  with g2 f have 2: "\<exists>g2. update env0 leaving_state = Inr g2 \<and> length (pipes g2) = 2 \<and> \<not> game_over g2 \<and>
      (\<exists>news. pipes g2 = [Pipe_motion (pipes leaving_state ! 1)] @ news \<and> length news = 1 \<and>
          list_all (spawned 250) news)"
    by auto
  from a b 1 v 2 show ?thesis by simp
qed

text \<open>
  The bird of \<open>fall_state\<close> is the bird of a round: the new bird, started by a flap and
  moved 65 times. By then the pipes have moved from 864 and 1204 to 604 and 944, the
  floor from 0 to \<open>-260\<close>.
\<close>

lemma fall_state_bird:
  "bird fall_state =
     (bird_run (Flap # replicate 65 Motion)
        (Bird_init (WIDTH div 20) (of_int (HEIGHT div 2)) (bird_image env0)))\<lparr>started := True\<rparr>"
  by (simp add: numeral_eq_Suc Bird_motion_def Bird_flap_def FLAP_POWER_def Bird_init_def
      GRAVITY_def ROTATION_SPEED_def Let_def WIDTH_def HEIGHT_def env0_def fall_state_def)




text \<open>
  C8. With \<open>PIPE_GAP\<close> at one of its three values, \<open>restore_from_memento\<close> returns, and
  the game then has the memento's score and game-over flag, the bird at the recorded
  \<open>(x, y)\<close>, one pipe at each recorded x in the recorded order, and the floor at the
  recorded x and at \<open>y = HEIGHT - 224\<close>. The memento taken of the game that
  \<open>Game.__init__\<close> built records score 0, flag false, bird at (28, 512), pipes at 864 and
  1204, floor at 0.
\<close>

theorem C8_restore_positions:
  "(valid_gap (PIPE_GAP g) \<longrightarrow>
      (\<exists>g'. restore_from_memento E m g = Inr g' \<and>
            score g' = m_score m \<and> game_over g' = m_game_over m \<and>
            (x (bird g'), y (bird g')) = bird_state m \<and>
            map x (pipes g') = pipe_states m \<and>
            x (floor_obj g') = floor_state m \<and> y (floor_obj g') = HEIGHT - 224)) \<and>
   (Game_init E argv module_globals = Inr g0 \<longrightarrow>
      create_memento g0 =
        \<lparr>m_score = 0, m_game_over = False, bird_state = (28, 512),
         pipe_states = [864, 1204], floor_state = 0\<rparr>)"
proof -
  have 1: "\<exists>g'. restore_from_memento E m g = Inr g' \<and>
            score g' = m_score m \<and> game_over g' = m_game_over m \<and>
            (x (bird g'), y (bird g')) = bird_state m \<and>
            map x (pipes g') = pipe_states m \<and>
            x (floor_obj g') = floor_state m \<and> y (floor_obj g') = HEIGHT - 224"
    if "valid_gap (PIPE_GAP g)"
  proof -
    from restore_ok [OF valid_gap_le [OF that], of E m] obtain g' where
      "restore_from_memento E m g = Inr g'" "score g' = m_score m" "game_over g' = m_game_over m"
      "bird g' = Bird_init (fst (bird_state m)) (snd (bird_state m)) (bird_image E)"
      "map x (pipes g') = pipe_states m"
      "floor_obj g' = Floor_init (floor_state m) (HEIGHT - 224) (floor_image E)"
      by blast
    then show ?thesis
      by (simp add: Bird_init_def Floor_init_def Sprite_init_def)
  qed
  have 2: "create_memento g0 =
        \<lparr>m_score = 0, m_game_over = False, bird_state = (28, 512),
         pipe_states = [864, 1204], floor_state = 0\<rparr>"
    if "Game_init E argv module_globals = Inr g0"
    using Game_init_ok [of E argv] that
    by (auto simp: create_memento_def Bird_init_def Floor_init_def Sprite_init_def
        WIDTH_def HEIGHT_def)
  from 1 2 show ?thesis by blast
qed

theorem C8_restore_positions_witness:
  "valid_gap (PIPE_GAP fall_state) \<and>
   (\<exists>g'. restore_from_memento env0 start_memento fall_state = Inr g' \<and>
         score g' = 0 \<and> \<not> game_over g' \<and> x (bird g') = 28 \<and> y (bird g') = 512 \<and>
         map x (pipes g') = [864, 1204] \<and> x (floor_obj g') = 0 \<and> y (floor_obj g') = 800) \<and>
   (case Game_init env0 [] module_globals of
      Inl e \<Rightarrow> False
    | Inr g0 \<Rightarrow> create_memento g0 = start_memento)"
proof -
  have v: "valid_gap (PIPE_GAP fall_state)" by (simp add: valid_gap_def fall_state_def)
  from Game_init_ok [of env0 "[]"] obtain g0 where g0: "Game_init env0 [] module_globals = Inr g0"
    by blast
  note T = C8_restore_positions [of fall_state env0 start_memento "[]" g0]
  from T v
  have 1: "\<exists>g'. restore_from_memento env0 start_memento fall_state = Inr g' \<and>
         score g' = 0 \<and> \<not> game_over g' \<and> x (bird g') = 28 \<and> y (bird g') = 512 \<and>
         map x (pipes g') = [864, 1204] \<and> x (floor_obj g') = 0 \<and> y (floor_obj g') = 800"
    by (simp add: start_memento_def HEIGHT_def)
  from T g0
  have "create_memento g0 = start_memento" by (simp add: start_memento_def)
  with v 1 g0 show ?thesis by simp
qed

text \<open>
  C9. For each of the three values of \<open>PIPE_GAP\<close> the constructor of \<open>Pipe\<close> returns a
  pipe with \<open>gap_start\<close> at least 50 and \<open>gap_start + PIPE_GAP\<close> at most
  \<open>HEIGHT - 274\<close>, which is above the floor's top edge \<open>HEIGHT - 224\<close>. In every state
  that the main loop reaches, whatever the command line, every pipe of the list satisfies
  the two bounds for the current \<open>PIPE_GAP\<close> (also the two pipes created before the
  command line is read), and the floor is at \<open>y = HEIGHT - 224\<close>.
\<close>

theorem C9_gap_on_screen:
  "(valid_gap gap \<longrightarrow>
      (\<exists>p. Pipe_init xv img st gap r i = Inr p \<and>
           50 \<le> gap_start p \<and> gap_start p + gap \<le> HEIGHT - 274)) \<and>
   HEIGHT - 274 < HEIGHT - 224 \<and>
   (\<exists>g0. Game_init E argv module_globals = Inr g0 \<and> valid_gap (PIPE_GAP g0)) \<and>
   (Game_init E argv module_globals = Inr g0 \<and> main E frames g0 = Inr g \<longrightarrow>
      valid_gap (PIPE_GAP g) \<and>
      list_all (\<lambda>p. 50 \<le> gap_start p \<and> gap_start p + PIPE_GAP g \<le> HEIGHT - 274) (pipes g) \<and>
      y (floor_obj g) = HEIGHT - 224)"
proof -
  have 1: "\<exists>p. Pipe_init xv img st gap r i = Inr p \<and>
           50 \<le> gap_start p \<and> gap_start p + gap \<le> HEIGHT - 274" if "valid_gap gap"
    using Pipe_init_ok [OF valid_gap_le [OF that], of xv img st r i]
    by (auto simp: gap_ok_def)
  have 2: "\<exists>g0. Game_init E argv module_globals = Inr g0 \<and> valid_gap (PIPE_GAP g0)"
    using Game_init_ok [of E argv] by (auto simp: round_inv_def)
  have 3: "valid_gap (PIPE_GAP g) \<and>
      list_all (\<lambda>p. 50 \<le> gap_start p \<and> gap_start p + PIPE_GAP g \<le> HEIGHT - 274) (pipes g) \<and>
      y (floor_obj g) = HEIGHT - 224"
    if "Game_init E argv module_globals = Inr g0" "main E frames g0 = Inr g"
    using main_inv [OF that(1), of frames] that(2)
    by (auto simp: round_inv_def gap_ok_def [abs_def])
  have 0: "HEIGHT - 274 < HEIGHT - 224" by simp
  from 0 1 2 3 show ?thesis by blast
qed

theorem C9_gap_on_screen_witness:
  "valid_gap 150 \<and>
   (\<exists>p. Pipe_init WIDTH (pipe_image env0) ''pipe'' 150 (entropy env0 5) 5 = Inr p \<and>
        50 \<le> gap_start p \<and> gap_start p + 150 \<le> HEIGHT - 274) \<and>
   (case Game_init env0 [''flappy.py'', ''hard''] module_globals of
      Inl e \<Rightarrow> False
    | Inr g0 \<Rightarrow>
        (case main env0 [[KEYDOWN K_SPACE], [], []] g0 of
           Inl e \<Rightarrow> False
         | Inr g \<Rightarrow> PIPE_GAP g = 150 \<and>
             list_all (\<lambda>p. 50 \<le> gap_start p \<and> gap_start p + PIPE_GAP g \<le> HEIGHT - 274) (pipes g)))"
proof -
  have v: "valid_gap 150" by (simp add: valid_gap_def)
  note T = C9_gap_on_screen [of 150 WIDTH "pipe_image env0" "''pipe''" "entropy env0 5" 5]
  from T v have 1: "\<exists>p. Pipe_init WIDTH (pipe_image env0) ''pipe'' 150 (entropy env0 5) 5 = Inr p \<and>
        50 \<le> gap_start p \<and> gap_start p + 150 \<le> HEIGHT - 274"
    by blast
  have "case Game_init env0 [''flappy.py'', ''hard''] module_globals of
      Inl e \<Rightarrow> False
    | Inr g0 \<Rightarrow>
        (case main env0 [[KEYDOWN K_SPACE], [], []] g0 of
           Inl e \<Rightarrow> False
         | Inr g \<Rightarrow> PIPE_GAP g = 150)"
    by code_simp
  then obtain g0 g where a: "Game_init env0 [''flappy.py'', ''hard''] module_globals = Inr g0"
    and b: "main env0 [[KEYDOWN K_SPACE], [], []] g0 = Inr g" and c: "PIPE_GAP g = 150"
    by (auto split: sum.splits)
  from C9_gap_on_screen [of 150 WIDTH "pipe_image env0" "''pipe''" "entropy env0 5" 5
      env0 "[''flappy.py'', ''hard'']" g0 "[[KEYDOWN K_SPACE], [], []]" g] a b
  have "list_all (\<lambda>p. 50 \<le> gap_start p \<and> gap_start p + PIPE_GAP g \<le> HEIGHT - 274) (pipes g)"
    by blast
  with v 1 a b c show ?thesis by simp
qed

text \<open>
  C10. After \<open>restore_from_memento\<close> the bird's velocity, rotation and accumulator are 0
  and \<open>started\<close> is false, so the main loop does not call \<open>Game.update\<close>: frames whose
  events run no command leave the game as it is (when the memento's game-over flag is
  false). After the next flap command \<open>started\<close> is true and the loop calls
  \<open>Game.update\<close> again.
\<close>

theorem C10_restore_idle:
  "valid_gap (PIPE_GAP g) \<longrightarrow>
     (\<exists>g'. restore_from_memento E m g = Inr g' \<and>
           vely (bird g') = 0 \<and> rotation (bird g') = 0 \<and> degree (bird g') = 0 \<and>
           \<not> started (bird g') \<and> advance E g' = Inr g' \<and>
           (list_all (list_all idle_event) frames \<and> \<not> m_game_over m \<longrightarrow>
              main_loop E frames m' d g' = Inr g') \<and>
           (case execute FlapCommand g' of
              Inl e \<Rightarrow> False
            | Inr g2 \<Rightarrow> started (bird g2) \<and> advance E g2 = update E g2))"
proof
  assume "valid_gap (PIPE_GAP g)"
  from restore_ok [OF valid_gap_le [OF this], of E m] obtain g' where
    g': "restore_from_memento E m g = Inr g'" "game_over g' = m_game_over m"
      "bird g' = Bird_init (fst (bird_state m)) (snd (bird_state m)) (bird_image E)"
    by blast
  have b: "vely (bird g') = 0" "rotation (bird g') = 0" "degree (bird g') = 0"
    "\<not> started (bird g')"
    by (simp_all add: g'(3) Bird_init_def)
  have a: "advance E g' = Inr g'" using b(4) by (simp add: advance_def)
  have i: "main_loop E frames m' d g' = Inr g'"
    if "list_all (list_all idle_event) frames" "\<not> m_game_over m"
    using that b(4) g'(2) by (simp add: main_loop_idle)
  have f: "case execute FlapCommand g' of
              Inl e \<Rightarrow> False
            | Inr g2 \<Rightarrow> started (bird g2) \<and> advance E g2 = update E g2"
    by (simp add: advance_def Bird_flap_def)
  from g'(1) b a i f
  show "\<exists>g'. restore_from_memento E m g = Inr g' \<and>
           vely (bird g') = 0 \<and> rotation (bird g') = 0 \<and> degree (bird g') = 0 \<and>
           \<not> started (bird g') \<and> advance E g' = Inr g' \<and>
           (list_all (list_all idle_event) frames \<and> \<not> m_game_over m \<longrightarrow>
              main_loop E frames m' d g' = Inr g') \<and>
           (case execute FlapCommand g' of
              Inl e \<Rightarrow> False
            | Inr g2 \<Rightarrow> started (bird g2) \<and> advance E g2 = update E g2)"
    by blast
qed

theorem C10_restore_idle_witness:
  "valid_gap (PIPE_GAP fall_state) \<and>
   list_all (list_all idle_event) [[], [KEYDOWN (K_other 97)], [Other_event]] \<and>
   \<not> m_game_over start_memento \<and>
   (\<exists>g'. restore_from_memento env0 start_memento fall_state = Inr g' \<and>
         vely (bird g') = 0 \<and> \<not> started (bird g') \<and>
         main_loop env0 [[], [KEYDOWN (K_other 97)], [Other_event]] start_memento 0 g' = Inr g')"
proof -
  have v: "valid_gap (PIPE_GAP fall_state)" by (simp add: valid_gap_def fall_state_def)
  have i: "list_all (list_all idle_event) [[], [KEYDOWN (K_other 97)], [Other_event]]" by simp
  have n: "\<not> m_game_over start_memento" by (simp add: start_memento_def)
  from C10_restore_idle [of fall_state env0 start_memento
      "[[], [KEYDOWN (K_other 97)], [Other_event]]" start_memento 0] v i n
  have "\<exists>g'. restore_from_memento env0 start_memento fall_state = Inr g' \<and>
         vely (bird g') = 0 \<and> \<not> started (bird g') \<and>
         main_loop env0 [[], [KEYDOWN (K_other 97)], [Other_event]] start_memento 0 g' = Inr g'"
    by blast
  with v i n show ?thesis by blast
qed

end
